theory Spec2Isabelle
  imports Complex_Main
begin

section \<open>Values shared by the two modules\<close>

text \<open>
  Python exceptions, as far as the handlers of the service tell them apart: an
  \<open>OpenAIError\<close> (or a subclass of it) and any other \<open>Exception\<close>. Each carries
  the text that \<open>str(e)\<close> gives.
\<close>

datatype py_exn = OpenAIError string | OtherError string

fun str :: "py_exn \<Rightarrow> string" where
  "str (OpenAIError m) = m"
| "str (OtherError m) = m"

text \<open>\<open>fastapi.HTTPException(status_code=..., detail=...)\<close>.\<close>

datatype http_exception = HTTPException (status_code: nat) (detail: string)

text \<open>
  A vector is one row of a float32 array, written with real components. The two
  handlers do no arithmetic on vectors themselves: they hand them to the library
  (\<open>faiss.normalize_L2\<close>, \<open>index.search\<close>), whose float32 arithmetic is outside this
  theory.
\<close>

type_synonym vec = "real list"

text \<open>
  The index object handed to \<open>retrieve\<close>. The source uses two things of it: the
  method \<open>search(qvec, k)\<close>, which gives the scores and the labels of the single
  query row, and (in the persistence module) its size \<open>ntotal\<close>.
\<close>

datatype faiss_index =
  FaissIndex (ntotal: nat) (search: "vec \<Rightarrow> nat \<Rightarrow> real list \<times> int list")

text \<open>A role-tagged message of the completion request.\<close>

datatype message = Message (role: string) (content: string)

text \<open>The requests sent to the model provider, in the order they are made.\<close>

datatype call =
  EmbeddingsCreate string "string list"
| ChatCompletionsCreate string "message list"

text \<open>What a path of the file system holds.\<close>

datatype blob = IndexFile faiss_index | ChunksFile "string list" | OtherFile string

type_synonym disk = "string \<rightharpoonup> blob"

text \<open>
  The collaborators whose code is outside the two modules: the text extractor, the
  chunker, the persistence module, the model provider, the library function
  \<open>faiss.normalize_L2\<close> on one row, and the directory of \<open>main.py\<close>
  (\<open>os.path.dirname(__file__)\<close>). The persistence functions read and write the disk
  and may call the provider.
\<close>

record env =
  module_dir :: string
  pdf_to_text :: "string \<Rightarrow> py_exn + string"
  chunk_text :: "string \<Rightarrow> py_exn + string list"
  build_and_save_index ::
    "string list \<Rightarrow> string \<Rightarrow> string \<Rightarrow> disk \<Rightarrow> call list \<Rightarrow> (py_exn + unit) \<times> disk \<times> call list"
  load_index :: "string \<Rightarrow> string \<Rightarrow> disk \<Rightarrow> py_exn + (faiss_index \<times> string list)"
  embeddings_create :: "string \<Rightarrow> string list \<Rightarrow> py_exn + vec list"
  chat_completions_create :: "string \<Rightarrow> message list \<Rightarrow> py_exn + string"
  faiss_normalize_L2 :: "vec \<Rightarrow> vec"

text \<open>Python list indexing \<open>xs[i]\<close>: a negative index counts from the end.\<close>

definition py_getitem :: "'a list \<Rightarrow> int \<Rightarrow> py_exn + 'a" where
  "py_getitem xs i =
     (if 0 \<le> i \<and> i < int (length xs) then Inr (xs ! nat i)
      else if i < 0 \<and> - int (length xs) \<le> i then Inr (xs ! nat (int (length xs) + i))
      else Inl (OtherError ''list index out of range''))"

text \<open>\<open>sep.join(xs)\<close>.\<close>

fun str_join :: "string \<Rightarrow> string list \<Rightarrow> string" where
  "str_join sep [] = []"
| "str_join sep [x] = x"
| "str_join sep (x # y # ys) = x @ sep @ str_join sep (y # ys)"

text \<open>\<open>os.path.join(a, b)\<close> on POSIX, for a relative \<open>b\<close>.\<close>

definition path_join :: "string \<Rightarrow> string \<Rightarrow> string" where
  "path_join a b = (if a = [] \<or> last a = CHR ''/'' then a @ b else a @ ''/'' @ b)"


section \<open>rag/rag_answer.py\<close>

definition CHAT_MODEL :: string where
  "CHAT_MODEL = ''gpt-4o-mini''"

definition EMBED_MODEL :: string where
  "EMBED_MODEL = ''text-embedding-3-small''"

text \<open>
  L2 normalisation over the reals, the notion of sections 3 and 4.3 of the
  specification: the row is divided by its Euclidean norm, and a row of norm zero is
  left as it is. It stands for the library function only in the example deployment
  below, on rows where float32 arithmetic is exact.
\<close>

definition l2_norm :: "vec \<Rightarrow> real" where
  "l2_norm v = sqrt (\<Sum>x\<leftarrow>v. x * x)"

definition normalize_L2 :: "vec \<Rightarrow> vec" where
  "normalize_L2 v = (if 0 < l2_norm v then map (\<lambda>x. x / l2_norm v) v else v)"

text \<open>
  \<open>embed_query\<close>: one request to the embedding model with the query as the only
  input; \<open>faiss.normalize_L2\<close> is applied to the first embedding of the response. An
  \<open>OpenAIError\<close> is raised again with a prefixed message, any other exception passes
  through.
\<close>

definition embed_query :: "env \<Rightarrow> string \<Rightarrow> call list \<Rightarrow> (py_exn + vec) \<times> call list" where
  "embed_query e query tr =
     (let tr' = tr @ [EmbeddingsCreate EMBED_MODEL [query]] in
      case embeddings_create e EMBED_MODEL [query] of
        Inl (OpenAIError m) \<Rightarrow> (Inl (OpenAIError (''Failed to generate embedding: '' @ m)), tr')
      | Inl (OtherError m) \<Rightarrow> (Inl (OtherError m), tr')
      | Inr data \<Rightarrow>
          (case data of
             [] \<Rightarrow> (Inl (OtherError ''list index out of range''), tr')
           | v # _ \<Rightarrow> (Inr (faiss_normalize_L2 e v), tr')))"

text \<open>The loop of \<open>retrieve\<close> over \<open>ids[0]\<close>, with \<open>results\<close> as accumulator.\<close>

fun retrieve_loop :: "string list \<Rightarrow> int list \<Rightarrow> string list \<Rightarrow> py_exn + string list" where
  "retrieve_loop cs [] results = Inr results"
| "retrieve_loop cs (i # ids) results =
     (if i \<noteq> - 1 then
        (case py_getitem cs i of
           Inl ex \<Rightarrow> Inl ex
         | Inr c \<Rightarrow> retrieve_loop cs ids (results @ [c]))
      else retrieve_loop cs ids results)"

definition retrieve ::
  "env \<Rightarrow> string \<Rightarrow> faiss_index \<Rightarrow> string list \<Rightarrow> nat \<Rightarrow> call list
     \<Rightarrow> (py_exn + string list) \<times> call list" where
  "retrieve e query idx cs k tr =
     (case embed_query e query tr of
        (Inl ex, tr') \<Rightarrow> (Inl ex, tr')
      | (Inr qvec, tr') \<Rightarrow>
          (case search idx qvec k of
             (scores, ids) \<Rightarrow> (retrieve_loop cs ids [], tr')))"

text \<open>The default of the parameter \<open>k\<close> of \<open>retrieve\<close>.\<close>

definition retrieve_default_k :: nat where
  "retrieve_default_k = 4"

definition system_content :: string where
  "system_content =
     ''You are an Insurance Agency Customer Care assistant. '' @
     ''Use only the provided context to answer. '' @
     ''If not found, say you don't have it and offer human support.''"

definition user_content :: "string \<Rightarrow> string \<Rightarrow> string" where
  "user_content context user_question =
     ''Context:\<newline>'' @ context @ ''\<newline>\<newline>Question:\<newline>'' @ user_question"

definition generate_answer ::
  "env \<Rightarrow> string \<Rightarrow> string list \<Rightarrow> call list \<Rightarrow> (py_exn + string) \<times> call list" where
  "generate_answer e user_question retrieved_chunks tr =
     (let context = str_join ''\<newline>\<newline>'' retrieved_chunks;
          messages = [Message ''system'' system_content,
                      Message ''user'' (user_content context user_question)];
          tr' = tr @ [ChatCompletionsCreate CHAT_MODEL messages] in
      case chat_completions_create e CHAT_MODEL messages of
        Inl (OpenAIError m) \<Rightarrow> (Inl (OpenAIError (''Failed to generate answer: '' @ m)), tr')
      | Inl (OtherError m) \<Rightarrow> (Inl (OtherError m), tr')
      | Inr text \<Rightarrow> (Inr text, tr'))"


section \<open>main.py\<close>

definition DATA_DIR :: "env \<Rightarrow> string" where
  "DATA_DIR e = path_join (module_dir e) ''data''"

definition PDF_PATH :: "env \<Rightarrow> string" where
  "PDF_PATH e = path_join (DATA_DIR e) ''knowledge.pdf''"

definition INDEX_PATH :: "env \<Rightarrow> string" where
  "INDEX_PATH e = path_join (DATA_DIR e) ''index.faiss''"

definition META_PATH :: "env \<Rightarrow> string" where
  "META_PATH e = path_join (DATA_DIR e) ''chunks.json''"

text \<open>
  The state the two handlers work on: the module's globals \<open>index\<close> and \<open>chunks\<close>
  (\<open>None\<close> at start), the file system, and the requests made to the provider so far.
\<close>

record state =
  index :: "faiss_index option"
  chunks :: "string list option"
  files :: disk
  calls :: "call list"

text \<open>\<open>os.path.exists\<close>.\<close>

definition path_exists :: "state \<Rightarrow> string \<Rightarrow> bool" where
  "path_exists s p = (files s p \<noteq> None)"

text \<open>The bodies of the responses: \<open>{"status": ..., "chunks": ...}\<close> and \<open>{"answer": ...}\<close>.\<close>

datatype ingest_out = IngestOut (status: string) (n_chunks: nat)

datatype chat_out = ChatOut (answer: string)

datatype ChatIn = ChatIn (message: string)

text \<open>The two \<open>except\<close> clauses of \<open>ingest\<close>.\<close>

fun ingest_except :: "py_exn \<Rightarrow> http_exception" where
  "ingest_except (OpenAIError m) = HTTPException 500 (''OpenAI API error: '' @ m)"
| "ingest_except (OtherError m) = HTTPException 500 (''Error during ingestion: '' @ m)"

text \<open>
  \<open>ingest\<close>. The assignment \<open>chunks = chunk_text(text)\<close> writes the global, since
  the function declares \<open>global index, chunks\<close>.
\<close>

definition ingest :: "env \<Rightarrow> state \<Rightarrow> (http_exception + ingest_out) \<times> state" where
  "ingest e s =
     (case pdf_to_text e (PDF_PATH e) of
        Inl ex \<Rightarrow> (Inl (ingest_except ex), s)
      | Inr text \<Rightarrow>
          (case chunk_text e text of
             Inl ex \<Rightarrow> (Inl (ingest_except ex), s)
           | Inr cs \<Rightarrow>
               (let s1 = s\<lparr>chunks := Some cs\<rparr> in
                case build_and_save_index e cs (INDEX_PATH e) (META_PATH e) (files s1) (calls s1) of
                  (Inl ex, d, tr) \<Rightarrow> (Inl (ingest_except ex), s1\<lparr>files := d, calls := tr\<rparr>)
                | (Inr u, d, tr) \<Rightarrow>
                    (let s2 = s1\<lparr>files := d, calls := tr\<rparr> in
                     case load_index e (INDEX_PATH e) (META_PATH e) (files s2) of
                       Inl ex \<Rightarrow> (Inl (ingest_except ex), s2)
                     | Inr (idx, cs') \<Rightarrow>
                         (Inr (IngestOut ''ok'' (length cs')),
                          s2\<lparr>index := Some idx, chunks := Some cs'\<rparr>)))))"

text \<open>The two \<open>except\<close> clauses of \<open>chat\<close>.\<close>

fun chat_except :: "py_exn \<Rightarrow> http_exception" where
  "chat_except (OpenAIError m) = HTTPException 500 (''OpenAI API error: '' @ m)"
| "chat_except (OtherError m) = HTTPException 500 (''Error processing request: '' @ m)"

definition not_ingested :: string where
  "not_ingested = ''Knowledge base not ingested yet. Call /ingest first.''"

text \<open>
  The last three statements of the \<open>try\<close> block of \<open>chat\<close>, run when both globals
  are set: retrieval with the default \<open>k\<close>, then the answer.
\<close>

definition chat_answer ::
  "env \<Rightarrow> ChatIn \<Rightarrow> faiss_index \<Rightarrow> string list \<Rightarrow> state \<Rightarrow> (http_exception + chat_out) \<times> state" where
  "chat_answer e payload idx cs s =
     (case retrieve e (message payload) idx cs retrieve_default_k (calls s) of
        (Inl ex, tr) \<Rightarrow> (Inl (chat_except ex), s\<lparr>calls := tr\<rparr>)
      | (Inr hits, tr) \<Rightarrow>
          (case generate_answer e (message payload) hits tr of
             (Inl ex, tr') \<Rightarrow> (Inl (chat_except ex), s\<lparr>calls := tr'\<rparr>)
           | (Inr a, tr') \<Rightarrow> (Inr (ChatOut a), s\<lparr>calls := tr'\<rparr>)))"

definition chat :: "env \<Rightarrow> ChatIn \<Rightarrow> state \<Rightarrow> (http_exception + chat_out) \<times> state" where
  "chat e payload s =
     (case (index s, chunks s) of
        (Some idx, Some cs) \<Rightarrow> chat_answer e payload idx cs s
      | _ \<Rightarrow>
          (if path_exists s (INDEX_PATH e) \<and> path_exists s (META_PATH e) then
             (case load_index e (INDEX_PATH e) (META_PATH e) (files s) of
                Inl ex \<Rightarrow> (Inl (chat_except ex), s)
              | Inr (idx, cs) \<Rightarrow>
                  chat_answer e payload idx cs (s\<lparr>index := Some idx, chunks := Some cs\<rparr>))
           else (Inr (ChatOut not_ingested), s)))"


section \<open>The context block of the specification\<close>

text \<open>
  The context block in the words of the specification: the chunks in their order, each
  one after the first preceded by a blank line.
\<close>

fun context_block :: "string list \<Rightarrow> string" where
  "context_block [] = []"
| "context_block (c # cs) = c @ concat (map (\<lambda>x. ''\<newline>\<newline>'' @ x) cs)"


section \<open>rag/chunking.py\<close>

text \<open>
  Modelled from the spec: \<open>chunk_text\<close> of \<open>rag/chunking.py\<close>, which is not among the
  sources. Section 4.2 of the specification gives it the text, a maximum chunk size
  and an overlap smaller than that size. The chunks are spans of the text: the first
  starts at 0, a span is \<open>max_size\<close> long unless the text ends before, in which case the
  rest of the text is the last chunk as it is, and the next span starts \<open>overlap\<close>
  before the end of the current one. The empty text has no chunk. Outside the
  precondition \<open>overlap < max_size\<close> the specification says nothing; there the rest of the
  text is taken as one chunk, which keeps the function total.
\<close>

function chunk_spans :: "nat \<Rightarrow> nat \<Rightarrow> nat \<Rightarrow> nat \<Rightarrow> (nat \<times> nat) list" where
  "chunk_spans max_size overlap n start =
     (if n \<le> start then []
      else if n \<le> start + max_size \<or> max_size \<le> overlap then [(start, n)]
      else (start, start + max_size) # chunk_spans max_size overlap n (start + max_size - overlap))"
  by pat_completeness auto
termination
  by (relation "measure (\<lambda>(max_size, overlap, n, start). n - start)") auto

text \<open>The slice \<open>text[s:e]\<close> for \<open>s \<le> e\<close>.\<close>

definition slice :: "'a list \<Rightarrow> nat \<times> nat \<Rightarrow> 'a list" where
  "slice xs se = take (snd se - fst se) (drop (fst se) xs)"

definition spec_chunk_text :: "nat \<Rightarrow> nat \<Rightarrow> string \<Rightarrow> string list" where
  "spec_chunk_text max_size overlap text =
     map (slice text) (chunk_spans max_size overlap (length text) 0)"

text \<open>
  Concatenating the chunks with the overlaps removed: the first chunk whole, every
  later chunk without its first \<open>overlap\<close> characters.
\<close>

fun reassemble :: "nat \<Rightarrow> string list \<Rightarrow> string" where
  "reassemble overlap [] = []"
| "reassemble overlap (c # cs) = c @ concat (map (drop overlap) cs)"


section \<open>rag/embed_store.py\<close>

text \<open>
  Modelled from the spec: the embedding client of section 4.3, used by the index
  builder of \<open>rag/embed_store.py\<close>, which is not among the sources. One request for
  all the texts; a provider error becomes an error of the client with a descriptive
  message (the specification does not fix its wording), all or nothing; every vector
  of the response is normalised.
\<close>

definition spec_embed ::
  "(string \<Rightarrow> string list \<Rightarrow> py_exn + vec list) \<Rightarrow> string list \<Rightarrow> call list
     \<Rightarrow> (py_exn + vec list) \<times> call list" where
  "spec_embed provider texts tr =
     (let tr' = tr @ [EmbeddingsCreate EMBED_MODEL texts] in
      case provider EMBED_MODEL texts of
        Inl ex \<Rightarrow> (Inl (OpenAIError (''Failed to generate embeddings: '' @ str ex)), tr')
      | Inr vs \<Rightarrow> (Inr (map normalize_L2 vs), tr'))"

text \<open>
  Modelled from the spec: the similarity-search structure of section 4.4, an
  inner-product ranking over the stored vectors. A search for \<open>k\<close> neighbours gives
  \<open>k\<close> labels, the positions of the stored vectors by decreasing inner product with
  the query; where fewer than \<open>k\<close> vectors are stored the missing places hold the
  sentinel \<open>-1\<close> (section 4.5), with the lowest float as score.
\<close>

definition inner_product :: "vec \<Rightarrow> vec \<Rightarrow> real" where
  "inner_product a b = (\<Sum>(x, y)\<leftarrow>zip a b. x * y)"

definition no_score :: real where
  "no_score = - 340282346638528859811704183484516925440"

definition flat_search :: "vec list \<Rightarrow> vec \<Rightarrow> nat \<Rightarrow> real list \<times> int list" where
  "flat_search vs q k =
     (let scored = map (\<lambda>(i, v). (int i, inner_product v q)) (enumerate 0 vs);
          ranked = take k (sort_key (\<lambda>(i, sc). - sc) scored);
          pad = k - length ranked
      in (map snd ranked @ replicate pad no_score, map fst ranked @ replicate pad (- 1)))"

definition flat_index :: "vec list \<Rightarrow> faiss_index" where
  "flat_index vs = FaissIndex (length vs) (flat_search vs)"

text \<open>
  Modelled from the spec: \<open>build\<close>, \<open>save\<close> and \<open>load\<close> of section 4.4 and their
  composition \<open>build_and_save_index\<close>, of \<open>rag/embed_store.py\<close>. \<open>build\<close> embeds the
  chunk texts in their order and indexes the vectors; \<open>save\<close> writes the index to one
  file and the chunk texts to the other; \<open>load\<close> reads both and fails when a file is
  missing, is not what was saved, or the two differ in length.
\<close>

definition spec_build ::
  "(string \<Rightarrow> string list \<Rightarrow> py_exn + vec list) \<Rightarrow> string list \<Rightarrow> call list
     \<Rightarrow> (py_exn + faiss_index) \<times> call list" where
  "spec_build provider cs tr =
     (case spec_embed provider cs tr of
        (Inl ex, tr') \<Rightarrow> (Inl ex, tr')
      | (Inr vs, tr') \<Rightarrow> (Inr (flat_index vs), tr'))"

definition spec_save :: "faiss_index \<Rightarrow> string list \<Rightarrow> string \<Rightarrow> string \<Rightarrow> disk \<Rightarrow> disk" where
  "spec_save idx cs index_path meta_path d =
     (d(index_path \<mapsto> IndexFile idx))(meta_path \<mapsto> ChunksFile cs)"

definition spec_load_index :: "string \<Rightarrow> string \<Rightarrow> disk \<Rightarrow> py_exn + (faiss_index \<times> string list)" where
  "spec_load_index index_path meta_path d =
     (case (d index_path, d meta_path) of
        (Some (IndexFile idx), Some (ChunksFile cs)) \<Rightarrow>
          (if ntotal idx = length cs then Inr (idx, cs)
           else Inl (OtherError ''index and chunk store differ in length''))
      | (None, _) \<Rightarrow> Inl (OtherError ''index file not found'')
      | (_, None) \<Rightarrow> Inl (OtherError ''chunk file not found'')
      | _ \<Rightarrow> Inl (OtherError ''unreadable knowledge base''))"

definition spec_build_and_save_index ::
  "(string \<Rightarrow> string list \<Rightarrow> py_exn + vec list) \<Rightarrow> string list \<Rightarrow> string \<Rightarrow> string
     \<Rightarrow> disk \<Rightarrow> call list \<Rightarrow> (py_exn + unit) \<times> disk \<times> call list" where
  "spec_build_and_save_index provider cs index_path meta_path d tr =
     (case spec_build provider cs tr of
        (Inl ex, tr') \<Rightarrow> (Inl ex, d, tr')
      | (Inr idx, tr') \<Rightarrow> (Inr (), spec_save idx cs index_path meta_path d, tr'))"

text \<open>
  The service with the modules above in the place of the missing ones: a directory,
  an extractor, the chunker's sizes and the two operations of the provider. The
  library's normalisation is the one over the reals.
\<close>

definition spec_env ::
  "string \<Rightarrow> (string \<Rightarrow> py_exn + string) \<Rightarrow> nat \<Rightarrow> nat
     \<Rightarrow> (string \<Rightarrow> string list \<Rightarrow> py_exn + vec list)
     \<Rightarrow> (string \<Rightarrow> message list \<Rightarrow> py_exn + string) \<Rightarrow> env" where
  "spec_env dir extract max_size overlap embedder completer =
     \<lparr> module_dir = dir,
       pdf_to_text = extract,
       chunk_text = (\<lambda>text. Inr (spec_chunk_text max_size overlap text)),
       build_and_save_index = spec_build_and_save_index embedder,
       load_index = spec_load_index,
       embeddings_create = embedder,
       chat_completions_create = completer,
       faiss_normalize_L2 = normalize_L2 \<rparr>"


section \<open>A concrete deployment\<close>

text \<open>
  A small instance of the service, used to run the definitions: the document is the
  text \<open>abc\<close>, chunks are at most 5 characters long with an overlap of 2, the
  embedding model gives every text the vector \<open>(2, 0)\<close>, and the completion model
  gives a fixed answer. A second provider refuses every embedding request.
\<close>

definition example_extract :: "string \<Rightarrow> py_exn + string" where
  "example_extract path = Inr ''abc''"

definition example_embedder :: "string \<Rightarrow> string list \<Rightarrow> py_exn + vec list" where
  "example_embedder model texts = Inr (map (\<lambda>t. [2, 0]) texts)"

definition failing_embedder :: "string \<Rightarrow> string list \<Rightarrow> py_exn + vec list" where
  "failing_embedder model texts = Inl (OpenAIError ''Incorrect API key provided'')"

definition example_completer :: "string \<Rightarrow> message list \<Rightarrow> py_exn + string" where
  "example_completer model messages = Inr ''Please contact human support.''"


definition example_env :: env where
  "example_env = spec_env ''/app'' example_extract 5 2 example_embedder example_completer"

definition failing_env :: env where
  "failing_env = spec_env ''/app'' example_extract 5 2 failing_embedder example_completer"








text \<open>An index of two vectors and one of three, and chunk stores of matching lengths.\<close>

definition two_vectors :: faiss_index where
  "two_vectors = flat_index [[1, 0], [0, 1]]"

definition three_vectors :: faiss_index where
  "three_vectors = flat_index [[1, 0], [0, 1], [3 / 5, 4 / 5]]"

definition two_chunks :: "string list" where
  "two_chunks = [''one'', ''two'']"

definition three_chunks :: "string list" where
  "three_chunks = [''one'', ''two'', ''three'']"

text \<open>The service at start with nothing on disk.\<close>

definition absent_state :: state where
  "absent_state = \<lparr> index = None, chunks = None, files = Map.empty, calls = [] \<rparr>"

text \<open>The service after a restart, with a knowledge base of three chunks on disk.\<close>

definition persisted_state :: state where
  "persisted_state =
     \<lparr> index = None, chunks = None,
       files = [''/app/data/index.faiss'' \<mapsto> IndexFile three_vectors,
                ''/app/data/chunks.json'' \<mapsto> ChunksFile three_chunks],
       calls = [] \<rparr>"

text \<open>The same knowledge base loaded in memory.\<close>

definition ready_state :: state where
  "ready_state = persisted_state\<lparr> index := Some three_vectors, chunks := Some three_chunks \<rparr>"


section \<open>The answer composer's request\<close>

lemma str_join_Cons: "str_join sep (x # xs) = x @ concat (map (\<lambda>y. sep @ y) xs)"
  by (induction xs arbitrary: x) simp_all

lemma str_join_context_block: "str_join ''\<newline>\<newline>'' xs = context_block xs"
  by (cases xs) (simp_all only: str_join_Cons context_block.simps str_join.simps)

text \<open>
  C6. Whatever the question and the retrieved chunks, \<open>generate_answer\<close> calls the
  completion model once, with the model name and exactly two messages: a system
  message whose text is a constant, and a user message made of the context block (the
  retrieved chunks in their order, a blank line between two of them) followed by the
  question. What it returns is decided by the provider's response to that very
  request, and the request is the one added to the requests made so far.
\<close>

theorem generate_answer_request:
  "generate_answer e q hits tr =
     (case chat_completions_create e ''gpt-4o-mini''
        [Message ''system''
           (''You are an Insurance Agency Customer Care assistant. '' @
            ''Use only the provided context to answer. '' @
            ''If not found, say you don't have it and offer human support.''),
         Message ''user''
           (''Context:\<newline>'' @ context_block hits @
            ''\<newline>\<newline>Question:\<newline>'' @ q)] of
        Inl (OpenAIError m) \<Rightarrow> Inl (OpenAIError (''Failed to generate answer: '' @ m))
      | Inl (OtherError m) \<Rightarrow> Inl (OtherError m)
      | Inr a \<Rightarrow> Inr a,
      tr @ [ChatCompletionsCreate ''gpt-4o-mini''
        [Message ''system''
           (''You are an Insurance Agency Customer Care assistant. '' @
            ''Use only the provided context to answer. '' @
            ''If not found, say you don't have it and offer human support.''),
         Message ''user''
           (''Context:\<newline>'' @ context_block hits @
            ''\<newline>\<newline>Question:\<newline>'' @ q)]])"
proof -
  have "str_join ''\<newline>\<newline>'' hits = context_block hits"
    by (rule str_join_context_block)
  then show ?thesis
    by (simp add: generate_answer_def Let_def CHAT_MODEL_def system_content_def
        user_content_def split: sum.splits py_exn.splits)
qed


section \<open>Retrieval\<close>

lemma retrieve_loop_acc:
  "retrieve_loop cs ids acc =
     (case retrieve_loop cs ids [] of Inl ex \<Rightarrow> Inl ex | Inr rs \<Rightarrow> Inr (acc @ rs))"
proof (induction ids arbitrary: acc)
  case Nil
  show ?case by simp
next
  case (Cons i ids)
  show ?case
  proof (cases "i \<noteq> - 1")
    case False
    with Cons.IH[of acc] show ?thesis by simp
  next
    case True
    show ?thesis
    proof (cases "py_getitem cs i")
      case (Inl ex)
      with True show ?thesis by simp
    next
      case (Inr c)
      with True Cons.IH[of "acc @ [c]"] Cons.IH[of "[c]"] show ?thesis
        by (simp split: sum.splits)
    qed
  qed
qed

lemma py_getitem_in_range:
  "0 \<le> i \<Longrightarrow> i < int (length xs) \<Longrightarrow> py_getitem xs i = Inr (xs ! nat i)"
  by (simp add: py_getitem_def)

lemma py_getitem_beyond:
  "int (length xs) \<le> i \<Longrightarrow> py_getitem xs i = Inl (OtherError ''list index out of range'')"
  by (simp add: py_getitem_def)

lemma py_getitem_Inr_mem: "py_getitem xs i = Inr x \<Longrightarrow> x \<in> set xs"
  by (auto simp: py_getitem_def split: if_splits)

lemma retrieve_loop_in_range:
  "(\<forall>i \<in> set ids. i = - 1 \<or> (0 \<le> i \<and> i < int (length cs))) \<Longrightarrow>
     retrieve_loop cs ids acc = Inr (acc @ map (\<lambda>i. cs ! nat i) (filter (\<lambda>i. i \<noteq> - 1) ids))"
  by (induction ids arbitrary: acc) (auto simp: py_getitem_in_range)

lemma retrieve_loop_result:
  "retrieve_loop cs ids acc = Inr rs \<Longrightarrow>
     map Inr rs = map Inr acc @ map (py_getitem cs) (filter (\<lambda>i. i \<noteq> - 1) ids)"
proof (induction ids arbitrary: acc)
  case Nil
  then show ?case by auto
next
  case (Cons i ids)
  show ?case
  proof (cases "i \<noteq> - 1")
    case False
    with Cons show ?thesis by simp
  next
    case True
    show ?thesis
    proof (cases "py_getitem cs i")
      case (Inl ex)
      with True Cons.prems show ?thesis by simp
    next
      case (Inr c)
      with True Cons.prems Cons.IH[of "acc @ [c]"] show ?thesis by simp
    qed
  qed
qed

lemma retrieve_Inr:
  "fst (retrieve e q idx cs k tr) = Inr rs \<Longrightarrow>
     \<exists>qvec. fst (embed_query e q tr) = Inr qvec \<and>
       retrieve_loop cs (snd (search idx qvec k)) [] = Inr rs"
  by (auto simp: retrieve_def split: prod.splits sum.splits)

lemma retrieve_embedded:
  "fst (embed_query e q tr) = Inr qvec \<Longrightarrow>
     fst (retrieve e q idx cs k tr) = retrieve_loop cs (snd (search idx qvec k)) []"
  by (auto simp: retrieve_def split: prod.splits sum.splits)

lemma flat_search_length: "length (snd (flat_search vs q k)) = k"
  by (simp add: flat_search_def Let_def)

lemma flat_search_range:
  assumes "i \<in> set (snd (flat_search vs q k))"
  shows "i = - 1 \<or> (0 \<le> i \<and> i < int (length vs))"
proof -
  let ?scored = "map (\<lambda>(i, v). (int i, inner_product v q)) (enumerate 0 vs)"
  from assms consider "i \<in> set (map fst (take k (sort_key (\<lambda>(i, sc). - sc) ?scored)))" | "i = - 1"
    by (auto simp: flat_search_def Let_def)
  then show ?thesis
  proof cases
    case 1
    then have "i \<in> fst ` set (take k (sort_key (\<lambda>(i, sc). - sc) ?scored))"
      by simp
    moreover have "set (take k (sort_key (\<lambda>(i, sc). - sc) ?scored))
        \<subseteq> set (sort_key (\<lambda>(i, sc). - sc) ?scored)"
      by (rule set_take_subset)
    ultimately have "i \<in> fst ` set (sort_key (\<lambda>(i, sc). - sc) ?scored)"
      by blast
    then have "i \<in> fst ` set ?scored" by simp
    then obtain j v where "(j, v) \<in> set (enumerate 0 vs)" and "i = int j"
      by auto
    then show ?thesis by (auto simp: in_set_enumerate_eq)
  next
    case 2
    then show ?thesis by simp
  qed
qed


section \<open>The handlers and the provider\<close>

lemma path_join_data [simp]: "path_join ''/app'' ''data'' = ''/app/data''"
  by (simp add: path_join_def)

lemma example_paths:
  "INDEX_PATH example_env = ''/app/data/index.faiss''"
  "META_PATH example_env = ''/app/data/chunks.json''"
  "PDF_PATH example_env = ''/app/data/knowledge.pdf''"
  by (simp_all add: INDEX_PATH_def META_PATH_def PDF_PATH_def DATA_DIR_def example_env_def spec_env_def path_join_def)

lemma paths_distinct: "INDEX_PATH e \<noteq> META_PATH e"
  by (simp add: INDEX_PATH_def META_PATH_def path_join_def)

lemma embed_query_calls:
  "snd (embed_query e q tr) = tr @ [EmbeddingsCreate EMBED_MODEL [q]]"
  by (simp add: embed_query_def Let_def split: sum.splits py_exn.splits list.splits)

lemma retrieve_calls:
  "snd (retrieve e q idx cs k tr) = tr @ [EmbeddingsCreate EMBED_MODEL [q]]"
  using embed_query_calls[of e q tr]
  by (auto simp: retrieve_def split: prod.splits sum.splits)

lemma generate_answer_calls:
  "\<exists>c. snd (generate_answer e q hits tr) = tr @ [c]"
  by (simp add: generate_answer_def Let_def split: sum.splits py_exn.splits)

lemma chat_answer_calls:
  "\<exists>more. calls (snd (chat_answer e p idx cs s))
      = calls s @ EmbeddingsCreate EMBED_MODEL [message p] # more"
proof (cases "retrieve e (message p) idx cs retrieve_default_k (calls s)")
  case (Pair r tr)
  with retrieve_calls[of e "message p" idx cs retrieve_default_k "calls s"]
  have tr: "tr = calls s @ [EmbeddingsCreate EMBED_MODEL [message p]]" by simp
  show ?thesis
  proof (cases r)
    case (Inl ex)
    with Pair tr show ?thesis by (simp add: chat_answer_def)
  next
    case (Inr hits)
    obtain c where "snd (generate_answer e (message p) hits tr) = tr @ [c]"
      using generate_answer_calls by blast
    with Pair Inr tr show ?thesis
      by (auto simp: chat_answer_def split: prod.splits sum.splits)
  qed
qed

lemma chat_answer_changes_state: "snd (chat_answer e p idx cs s) \<noteq> s"
proof
  assume "snd (chat_answer e p idx cs s) = s"
  then have "calls (snd (chat_answer e p idx cs s)) = calls s" by simp
  with chat_answer_calls[of e p idx cs s] show False by auto
qed

text \<open>
  C4. While the knowledge base is absent (both globals unset, neither file on disk),
  \<open>chat\<close> returns the fixed notice as a normal response for every message and
  leaves the state as it was: in particular the list of requests to the provider is
  unchanged, so neither the embedding nor the completion model is called.
\<close>

theorem chat_before_ingest:
  assumes "index s = None" and "chunks s = None"
    and "files s (INDEX_PATH e) = None" and "files s (META_PATH e) = None"
  shows "chat e (ChatIn msg) s =
           (Inr (ChatOut ''Knowledge base not ingested yet. Call /ingest first.''), s)"
  using assms by (simp add: chat_def path_exists_def not_ingested_def)

text \<open>The service at start, with a provider that would refuse every request.\<close>

theorem chat_before_ingest_witness:
  "index absent_state = None \<and> chunks absent_state = None
   \<and> files absent_state (INDEX_PATH failing_env) = None
   \<and> files absent_state (META_PATH failing_env) = None
   \<and> chat failing_env (ChatIn ''What is covered?'') absent_state =
       (Inr (ChatOut ''Knowledge base not ingested yet. Call /ingest first.''), absent_state)
   \<and> calls (snd (chat failing_env (ChatIn ''What is covered?'') absent_state)) = []"
proof -
  have h: "index absent_state = None" "chunks absent_state = None"
    "files absent_state (INDEX_PATH failing_env) = None"
    "files absent_state (META_PATH failing_env) = None"
    by (simp_all add: absent_state_def)
  from chat_before_ingest[OF h, of "''What is covered?''"] h show ?thesis
    by (simp add: absent_state_def)
qed

text \<open>
  C10. When a global is unset and both files exist, \<open>chat\<close> calls \<open>load_index\<close> on
  them: if that fails the error is surfaced, otherwise \<open>chat\<close> goes on exactly as it
  does from the state with the loaded index and chunks in the globals. The notice is
  returned without any effect exactly when a global is unset and one of the files is
  missing; in every other case a request is made or an error is returned.
\<close>

theorem chat_loads_persisted:
  "((index s = None \<or> chunks s = None)
      \<and> path_exists s (INDEX_PATH e) \<and> path_exists s (META_PATH e) \<longrightarrow>
      chat e p s =
        (case load_index e (INDEX_PATH e) (META_PATH e) (files s) of
           Inl ex \<Rightarrow> (Inl (chat_except ex), s)
         | Inr (idx, cs) \<Rightarrow> chat e p (s\<lparr>index := Some idx, chunks := Some cs\<rparr>)))
   \<and> (chat e p s = (Inr (ChatOut not_ingested), s) \<longleftrightarrow>
        (index s = None \<or> chunks s = None)
        \<and> \<not> (path_exists s (INDEX_PATH e) \<and> path_exists s (META_PATH e)))"
proof (intro conjI impI)
  assume a: "(index s = None \<or> chunks s = None)
      \<and> path_exists s (INDEX_PATH e) \<and> path_exists s (META_PATH e)"
  have loaded: "chat e p (s\<lparr>index := Some idx, chunks := Some cs\<rparr>)
      = chat_answer e p idx cs (s\<lparr>index := Some idx, chunks := Some cs\<rparr>)" for idx cs
    by (simp add: chat_def)
  from a show "chat e p s =
        (case load_index e (INDEX_PATH e) (META_PATH e) (files s) of
           Inl ex \<Rightarrow> (Inl (chat_except ex), s)
         | Inr (idx, cs) \<Rightarrow> chat e p (s\<lparr>index := Some idx, chunks := Some cs\<rparr>))"
    unfolding loaded
    by (auto simp: chat_def split: option.splits sum.splits prod.splits)
next
  show "chat e p s = (Inr (ChatOut not_ingested), s) \<longleftrightarrow>
        (index s = None \<or> chunks s = None)
        \<and> \<not> (path_exists s (INDEX_PATH e) \<and> path_exists s (META_PATH e))"
  proof (cases "index s = None \<or> chunks s = None")
    case False
    then obtain idx cs where "index s = Some idx" "chunks s = Some cs" by auto
    then have "chat e p s = chat_answer e p idx cs s" by (simp add: chat_def)
    with chat_answer_changes_state[of e p idx cs s] False show ?thesis
      by (metis snd_conv)
  next
    case unset: True
    show ?thesis
    proof (cases "path_exists s (INDEX_PATH e) \<and> path_exists s (META_PATH e)")
      case False
      with unset show ?thesis
        by (auto simp: chat_def split: option.splits)
    next
      case True
      have "chat e p s \<noteq> (Inr (ChatOut not_ingested), s)"
      proof (cases "load_index e (INDEX_PATH e) (META_PATH e) (files s)")
        case (Inl ex)
        with unset True show ?thesis
          by (auto simp: chat_def split: option.splits)
      next
        case (Inr kb)
        obtain idx cs where kb: "kb = (idx, cs)" by (cases kb)
        let ?s = "s\<lparr>index := Some idx, chunks := Some cs\<rparr>"
        from unset True Inr kb have eq: "chat e p s = chat_answer e p idx cs ?s"
          by (auto simp: chat_def split: option.splits)
        from chat_answer_calls[of e p idx cs ?s]
        have "calls (snd (chat_answer e p idx cs ?s)) \<noteq> calls s" by auto
        with eq show ?thesis by auto
      qed
      with unset True show ?thesis by simp
    qed
  qed
qed


section \<open>Retrieval on the example indexes\<close>

lemma example_embed_query:
  "embed_query example_env q tr = (Inr [1, 0], tr @ [EmbeddingsCreate EMBED_MODEL [q]])"
  by (simp add: embed_query_def example_env_def spec_env_def example_embedder_def
      normalize_L2_def l2_norm_def)

lemma search_two_vectors: "snd (search two_vectors [1, 0] 4) = [0, 1, - 1, - 1]"
  by (simp add: two_vectors_def flat_index_def flat_search_def inner_product_def Let_def
      eval_nat_numeral)

lemma search_three_vectors: "snd (search three_vectors [1, 0] 4) = [0, 2, 1, - 1]"
  by (simp add: three_vectors_def flat_index_def flat_search_def inner_product_def Let_def)

text \<open>
  C2 as stated fails: with an index of three vectors and a chunk store of two texts,
  the search returns position 2, which is not the sentinel, and the lookup in the
  chunk store raises \<open>IndexError\<close>.
\<close>

theorem retrieve_out_of_range_counterexample:
  "fst (retrieve example_env ''claims process'' three_vectors two_chunks 4 [])
     = Inl (OtherError ''list index out of range'')"
proof -
  have "fst (embed_query example_env ''claims process'' []) = Inr [1, 0]"
    by (simp add: example_embed_query)
  then have "fst (retrieve example_env ''claims process'' three_vectors two_chunks 4 [])
      = retrieve_loop two_chunks (snd (search three_vectors [1, 0] 4)) []"
    by (rule retrieve_embedded)
  also have "\<dots> = Inl (OtherError ''list index out of range'')"
    by (simp add: search_three_vectors two_chunks_def py_getitem_def)
  finally show ?thesis .
qed

text \<open>
  C2, amended. When every position returned by the search is the sentinel \<open>-1\<close> or lies
  within the chunk store, \<open>retrieve\<close> does not fail on the chunk store: it returns the
  chunk texts at the returned positions other than \<open>-1\<close>, each looked up in the parallel
  chunk store.
\<close>

theorem retrieve_skips_sentinel:
  assumes "fst (embed_query e q tr) = Inr qvec"
    and "\<forall>i \<in> set (snd (search idx qvec k)). i = - 1 \<or> (0 \<le> i \<and> i < int (length cs))"
  shows "fst (retrieve e q idx cs k tr)
           = Inr (map (\<lambda>i. cs ! nat i) (filter (\<lambda>i. i \<noteq> - 1) (snd (search idx qvec k))))"
  using retrieve_embedded[OF assms(1)] retrieve_loop_in_range[OF assms(2), of "[]"]
  by simp

text \<open>Two vectors, four neighbours asked for: two sentinels are skipped.\<close>

theorem retrieve_skips_sentinel_witness:
  "fst (embed_query example_env ''claims process'' []) = Inr [1, 0]
   \<and> snd (search two_vectors [1, 0] 4) = [0, 1, - 1, - 1]
   \<and> fst (retrieve example_env ''claims process'' two_vectors two_chunks 4 [])
       = Inr [''one'', ''two'']"
proof -
  have a: "fst (embed_query example_env ''claims process'' []) = Inr [1, 0]"
    by (simp add: example_embed_query)
  have b: "\<forall>i \<in> set (snd (search two_vectors [1, 0] 4)).
      i = - 1 \<or> (0 \<le> i \<and> i < int (length two_chunks))"
    by (simp add: search_two_vectors two_chunks_def)
  from retrieve_skips_sentinel[OF a b] a show ?thesis
    by (simp add: search_two_vectors two_chunks_def)
qed

text \<open>
  C3. For an index whose search gives at most \<open>k\<close> labels, a result of \<open>retrieve\<close> has
  at most \<open>k\<close> chunk texts, each of them a text of the chunk store, and they are the
  lookups of the labels other than \<open>-1\<close> in the order the search delivered them. The
  default of \<open>k\<close> is 4.
\<close>

theorem retrieve_at_most_k:
  assumes "\<forall>v. length (snd (search idx v k)) \<le> k"
    and "fst (retrieve e q idx cs k tr) = Inr rs"
  shows "length rs \<le> k \<and> set rs \<subseteq> set cs
    \<and> (\<exists>qvec. fst (embed_query e q tr) = Inr qvec
          \<and> map Inr rs = map (py_getitem cs) (filter (\<lambda>i. i \<noteq> - 1) (snd (search idx qvec k))))
    \<and> retrieve_default_k = 4"
proof -
  from retrieve_Inr[OF assms(2)] obtain qvec where
    q: "fst (embed_query e q tr) = Inr qvec" and
    l: "retrieve_loop cs (snd (search idx qvec k)) [] = Inr rs"
    by blast
  let ?ids = "snd (search idx qvec k)"
  from retrieve_loop_result[OF l]
  have m: "map Inr rs = map (py_getitem cs) (filter (\<lambda>i. i \<noteq> - 1) ?ids)" by simp
  then have "length (map Inr rs :: (py_exn + string) list)
      = length (map (py_getitem cs) (filter (\<lambda>i. i \<noteq> - 1) ?ids))"
    by simp
  then have "length rs = length (filter (\<lambda>i. i \<noteq> - 1) ?ids)" by simp
  also have "\<dots> \<le> length ?ids" by (rule length_filter_le)
  also have "\<dots> \<le> k" using assms(1) by blast
  finally have len: "length rs \<le> k" .
  have sub: "set rs \<subseteq> set cs"
  proof
    fix r assume "r \<in> set rs"
    then have "Inr r \<in> set (map Inr rs :: (py_exn + string) list)" by simp
    with m have "Inr r \<in> set (map (py_getitem cs) (filter (\<lambda>i. i \<noteq> - 1) ?ids))" by simp
    then obtain i where "py_getitem cs i = Inr r" by auto
    then show "r \<in> set cs" by (rule py_getitem_Inr_mem)
  qed
  from len sub q m show ?thesis by (auto simp: retrieve_default_k_def)
qed

text \<open>Three vectors, two neighbours asked for.\<close>

theorem retrieve_at_most_k_witness:
  "(\<forall>v. length (snd (search three_vectors v 2)) \<le> 2)
   \<and> fst (retrieve example_env ''claims process'' three_vectors three_chunks 2 [])
       = Inr [''one'', ''three'']
   \<and> length [''one'', ''three''] \<le> (2::nat)"
proof -
  have a: "\<forall>v. length (snd (search three_vectors v 2)) \<le> 2"
    by (simp add: three_vectors_def flat_index_def flat_search_length)
  have "fst (embed_query example_env ''claims process'' []) = Inr [1, 0]"
    by (simp add: example_embed_query)
  then have "fst (retrieve example_env ''claims process'' three_vectors three_chunks 2 [])
      = retrieve_loop three_chunks (snd (search three_vectors [1, 0] 2)) []"
    by (rule retrieve_embedded)
  also have "\<dots> = Inr [''one'', ''three'']"
    by (simp add: three_vectors_def flat_index_def flat_search_def inner_product_def Let_def
        three_chunks_def py_getitem_def)
  finally have b: "fst (retrieve example_env ''claims process'' three_vectors three_chunks 2 [])
      = Inr [''one'', ''three'']" .
  from retrieve_at_most_k[OF a b] a b show ?thesis by simp
qed






section \<open>Ingestion\<close>

lemma example_chunks: "spec_chunk_text 5 2 ''abc'' = [''abc'']"
proof -
  have "length ''abc'' = 3" by simp
  moreover have "chunk_spans 5 2 3 0 = [(0, 3)]" by (simp add: chunk_spans.simps)
  ultimately show ?thesis by (simp only: spec_chunk_text_def) (simp add: slice_def)
qed

lemma failing_paths:
  "INDEX_PATH failing_env = ''/app/data/index.faiss''"
  "META_PATH failing_env = ''/app/data/chunks.json''"
  "PDF_PATH failing_env = ''/app/data/knowledge.pdf''"
  by (simp_all add: INDEX_PATH_def META_PATH_def PDF_PATH_def DATA_DIR_def failing_env_def spec_env_def path_join_def)

lemma failing_env_fields:
  "pdf_to_text failing_env = example_extract"
  "chunk_text failing_env = (\<lambda>text. Inr (spec_chunk_text 5 2 text))"
  "build_and_save_index failing_env = spec_build_and_save_index failing_embedder"
  "load_index failing_env = spec_load_index"
  "embeddings_create failing_env = failing_embedder"
  by (simp_all add: failing_env_def spec_env_def)

lemma example_env_fields:
  "pdf_to_text example_env = example_extract"
  "chunk_text example_env = (\<lambda>text. Inr (spec_chunk_text 5 2 text))"
  "build_and_save_index example_env = spec_build_and_save_index example_embedder"
  "load_index example_env = spec_load_index"
  "embeddings_create example_env = example_embedder"
  "chat_completions_create example_env = example_completer"
  by (simp_all add: example_env_def spec_env_def)

lemma failing_build:
  "spec_build_and_save_index failing_embedder cs ip mp d tr =
     (Inl (OpenAIError ''Failed to generate embeddings: Incorrect API key provided''), d,
      tr @ [EmbeddingsCreate EMBED_MODEL cs])"
  by (simp add: spec_build_and_save_index_def spec_build_def spec_embed_def failing_embedder_def)

lemma ingest_failing:
  "ingest failing_env ready_state =
     (Inl (HTTPException 500
        ''OpenAI API error: Failed to generate embeddings: Incorrect API key provided''),
      ready_state\<lparr>chunks := Some [''abc''], calls := [EmbeddingsCreate EMBED_MODEL [''abc'']]\<rparr>)"
  by (simp add: ingest_def failing_env_fields failing_paths example_extract_def example_chunks
      failing_build Let_def ready_state_def persisted_state_def)

text \<open>
  C1 fails on the code. The service holds a knowledge base of three chunks; the
  document now extracts to one chunk and the provider refuses the embedding request.
  \<open>ingest\<close> reports the error and the files and the global \<open>index\<close> are as before, but
  the global \<open>chunks\<close> already holds the new chunk list. The next question is then
  answered from the old index and the new chunks, and fails.
\<close>

theorem failed_ingest_replaces_chunks:
  "fst (ingest failing_env ready_state) =
     Inl (HTTPException 500
       ''OpenAI API error: Failed to generate embeddings: Incorrect API key provided'')
   \<and> index ready_state = Some three_vectors
   \<and> chunks ready_state = Some [''one'', ''two'', ''three'']
   \<and> index (snd (ingest failing_env ready_state)) = Some three_vectors
   \<and> chunks (snd (ingest failing_env ready_state)) = Some [''abc'']
   \<and> files (snd (ingest failing_env ready_state)) = files ready_state
   \<and> fst (chat example_env (ChatIn ''claims process'') (snd (ingest failing_env ready_state))) =
       Inl (HTTPException 500 ''Error processing request: list index out of range'')"
proof -
  let ?s = "ready_state\<lparr>chunks := Some [''abc''], calls := [EmbeddingsCreate EMBED_MODEL [''abc'']]\<rparr>"
  have "fst (embed_query example_env ''claims process'' (calls ?s)) = Inr [1, 0]"
    by (simp add: example_embed_query)
  then have "fst (retrieve example_env ''claims process'' three_vectors [''abc''] 4 (calls ?s))
      = retrieve_loop [''abc''] (snd (search three_vectors [1, 0] 4)) []"
    by (rule retrieve_embedded)
  also have "\<dots> = Inl (OtherError ''list index out of range'')"
    by (simp add: search_three_vectors py_getitem_def)
  finally have r: "fst (retrieve example_env ''claims process'' three_vectors [''abc''] 4 (calls ?s))
      = Inl (OtherError ''list index out of range'')" .
  have c: "chat example_env (ChatIn ''claims process'') ?s
      = chat_answer example_env (ChatIn ''claims process'') three_vectors [''abc''] ?s"
    by (simp add: chat_def ready_state_def persisted_state_def)
  obtain res tr where p: "retrieve example_env ''claims process'' three_vectors [''abc''] 4 (calls ?s)
      = (res, tr)"
    by (cases "retrieve example_env ''claims process'' three_vectors [''abc''] 4 (calls ?s)")
  with r have res: "res = Inl (OtherError ''list index out of range'')" by simp
  have a: "fst (chat_answer example_env (ChatIn ''claims process'') three_vectors [''abc''] ?s)
      = Inl (HTTPException 500 ''Error processing request: list index out of range'')"
    by (simp only: chat_answer_def retrieve_default_k_def message.simps ChatIn.sel p res)
       simp
  have s: "snd (ingest failing_env ready_state) = ?s"
    by (simp only: ingest_failing snd_conv)
  have i1: "index ?s = Some three_vectors"
    by (simp add: ready_state_def)
  have i2: "files ?s = files ready_state"
    by simp
  have i3: "chunks ?s = Some [''abc'']"
    by simp
  have i4: "index ready_state = Some three_vectors"
    by (simp add: ready_state_def)
  have i5: "chunks ready_state = Some [''one'', ''two'', ''three'']"
    by (simp add: ready_state_def three_chunks_def)
  have i6: "fst (ingest failing_env ready_state) =
     Inl (HTTPException 500
       ''OpenAI API error: Failed to generate embeddings: Incorrect API key provided'')"
    by (simp only: ingest_failing fst_conv)
  from c a have i7: "fst (chat example_env (ChatIn ''claims process'') ?s) =
       Inl (HTTPException 500 ''Error processing request: list index out of range'')"
    by (simp only:)
  show ?thesis
    unfolding s using i1 i2 i3 i4 i5 i6 i7 by blast
qed

lemma spec_build_length:
  assumes "\<forall>texts vs. provider EMBED_MODEL texts = Inr vs \<longrightarrow> length vs = length texts"
    and "fst (spec_build provider cs tr) = Inr idx"
  shows "ntotal idx = length cs"
proof (cases "provider EMBED_MODEL cs")
  case (Inl ex)
  with assms(2) show ?thesis by (simp add: spec_build_def spec_embed_def)
next
  case (Inr vs)
  with assms(1) have "length vs = length cs" by blast
  with Inr assms(2) show ?thesis
    by (auto simp: spec_build_def spec_embed_def flat_index_def)
qed

lemma spec_load_length:
  "spec_load_index ip mp d = Inr (idx, cs) \<Longrightarrow>
     ntotal idx = length cs \<and> d ip = Some (IndexFile idx) \<and> d mp = Some (ChunksFile cs)"
  by (auto simp: spec_load_index_def split: option.splits blob.splits if_splits)

lemma spec_load_mismatch:
  "d ip = Some (IndexFile idx) \<Longrightarrow> d mp = Some (ChunksFile cs) \<Longrightarrow> ntotal idx \<noteq> length cs \<Longrightarrow>
     spec_load_index ip mp d = Inl (OtherError ''index and chunk store differ in length'')"
  by (simp add: spec_load_index_def)

lemma spec_save_load:
  "ip \<noteq> mp \<Longrightarrow> ntotal idx = length cs \<Longrightarrow>
     spec_load_index ip mp (spec_save idx cs ip mp d) = Inr (idx, cs)"
  by (simp add: spec_load_index_def spec_save_def)

lemma spec_build_and_save_load:
  assumes "\<forall>texts vs. provider EMBED_MODEL texts = Inr vs \<longrightarrow> length vs = length texts"
    and "ip \<noteq> mp"
    and "fst (spec_build_and_save_index provider cs ip mp d tr) = Inr u"
  shows "\<exists>idx. spec_load_index ip mp (fst (snd (spec_build_and_save_index provider cs ip mp d tr)))
            = Inr (idx, cs) \<and> ntotal idx = length cs"
proof (cases "spec_build provider cs tr")
  case (Pair r tr')
  show ?thesis
  proof (cases r)
    case (Inl ex)
    with Pair assms(3) show ?thesis by (simp add: spec_build_and_save_index_def)
  next
    case (Inr idx)
    with Pair have "fst (spec_build provider cs tr) = Inr idx" by simp
    from spec_build_length[OF assms(1) this] have "ntotal idx = length cs" .
    with Pair Inr assms(2) show ?thesis
      by (simp add: spec_build_and_save_index_def spec_save_load)
  qed
qed

lemma ingest_ok_loaded:
  assumes "fst (ingest e s) = Inr out"
  shows "\<exists>idx cs d. load_index e (INDEX_PATH e) (META_PATH e) d = Inr (idx, cs)
      \<and> index (snd (ingest e s)) = Some idx \<and> chunks (snd (ingest e s)) = Some cs
      \<and> out = IngestOut ''ok'' (length cs)"
proof (cases "pdf_to_text e (PDF_PATH e)")
  case (Inl ex)
  with assms show ?thesis by (simp add: ingest_def)
next
  case doc: (Inr doc)
  show ?thesis
  proof (cases "chunk_text e doc")
    case (Inl ex)
    with assms doc show ?thesis by (simp add: ingest_def)
  next
    case cs: (Inr cs)
    obtain r d tr where b: "build_and_save_index e cs (INDEX_PATH e) (META_PATH e) (files s) (calls s)
        = (r, d, tr)"
      by (cases "build_and_save_index e cs (INDEX_PATH e) (META_PATH e) (files s) (calls s)") auto
    show ?thesis
    proof (cases r)
      case (Inl ex)
      with assms doc cs b show ?thesis by (simp add: ingest_def)
    next
      case u: (Inr u)
      show ?thesis
      proof (cases "load_index e (INDEX_PATH e) (META_PATH e) d")
        case (Inl ex)
        with assms doc cs b u show ?thesis by (simp add: ingest_def)
      next
        case (Inr kb)
        obtain idx cs' where "kb = (idx, cs')" by (cases kb)
        with Inr assms doc cs b u show ?thesis
          by (auto simp: ingest_def)
      qed
    qed
  qed
qed

text \<open>
  C8. With a provider that gives one vector per text: a built index has as many
  vectors as there are chunks; what \<open>build_and_save_index\<close> wrote loads back as an index
  and the chunks, of equal length; whatever \<open>load\<close> returns has equal lengths, and files
  that differ in length are rejected by \<open>load\<close>; after a successful \<open>ingest\<close> the
  globals hold an index and a chunk store of equal length.
\<close>

theorem index_matches_chunk_store:
  assumes "\<forall>texts vs. provider EMBED_MODEL texts = Inr vs \<longrightarrow> length vs = length texts"
  shows "(fst (spec_build provider cs tr) = Inr idx \<longrightarrow> ntotal idx = length cs)
    \<and> (ip \<noteq> mp \<and> fst (spec_build_and_save_index provider cs ip mp d tr) = Inr () \<longrightarrow>
         (\<exists>idx. spec_load_index ip mp
                  (fst (snd (spec_build_and_save_index provider cs ip mp d tr))) = Inr (idx, cs)
               \<and> ntotal idx = length cs))
    \<and> (spec_load_index ip mp d = Inr (idx', cs') \<longrightarrow> ntotal idx' = length cs')
    \<and> (d ip = Some (IndexFile idx') \<and> d mp = Some (ChunksFile cs') \<and> ntotal idx' \<noteq> length cs' \<longrightarrow>
         (\<exists>ex. spec_load_index ip mp d = Inl ex))
    \<and> (fst (ingest (spec_env dir extract max_size overlap provider completer) s) = Inr out \<longrightarrow>
         (\<exists>idx cs.
            index (snd (ingest (spec_env dir extract max_size overlap provider completer) s)) = Some idx
          \<and> chunks (snd (ingest (spec_env dir extract max_size overlap provider completer) s)) = Some cs
          \<and> ntotal idx = length cs \<and> n_chunks out = length cs))"
proof (intro conjI impI)
  assume "fst (spec_build provider cs tr) = Inr idx"
  with assms show "ntotal idx = length cs" by (rule spec_build_length)
next
  assume "ip \<noteq> mp \<and> fst (spec_build_and_save_index provider cs ip mp d tr) = Inr ()"
  with assms show "\<exists>idx. spec_load_index ip mp
        (fst (snd (spec_build_and_save_index provider cs ip mp d tr))) = Inr (idx, cs)
      \<and> ntotal idx = length cs"
    using spec_build_and_save_load by blast
next
  assume "spec_load_index ip mp d = Inr (idx', cs')"
  then show "ntotal idx' = length cs'" using spec_load_length by blast
next
  assume "d ip = Some (IndexFile idx') \<and> d mp = Some (ChunksFile cs') \<and> ntotal idx' \<noteq> length cs'"
  then show "\<exists>ex. spec_load_index ip mp d = Inl ex" using spec_load_mismatch by blast
next
  let ?e = "spec_env dir extract max_size overlap provider completer"
  assume "fst (ingest ?e s) = Inr out"
  from ingest_ok_loaded[OF this] obtain idx cs d' where
    l: "load_index ?e (INDEX_PATH ?e) (META_PATH ?e) d' = Inr (idx, cs)" and
    i: "index (snd (ingest ?e s)) = Some idx" and c: "chunks (snd (ingest ?e s)) = Some cs" and
    o: "out = IngestOut ''ok'' (length cs)"
    by blast
  from l have "spec_load_index (INDEX_PATH ?e) (META_PATH ?e) d' = Inr (idx, cs)"
    by (simp add: spec_env_def)
  then have "ntotal idx = length cs" using spec_load_length by blast
  with i c o show "\<exists>idx cs. index (snd (ingest ?e s)) = Some idx
      \<and> chunks (snd (ingest ?e s)) = Some cs \<and> ntotal idx = length cs \<and> n_chunks out = length cs"
    by simp
qed

lemma example_build:
  "spec_build_and_save_index example_embedder [''abc''] ip mp d tr =
     (Inr (), (d(ip \<mapsto> IndexFile (flat_index [[1, 0]])))(mp \<mapsto> ChunksFile [''abc'']),
      tr @ [EmbeddingsCreate EMBED_MODEL [''abc'']])"
  by (simp add: spec_build_and_save_index_def spec_build_def spec_embed_def example_embedder_def
      spec_save_def normalize_L2_def l2_norm_def)

lemma ingest_example:
  "ingest example_env absent_state =
     (Inr (IngestOut ''ok'' 1),
      \<lparr> index = Some (flat_index [[1, 0]]), chunks = Some [''abc''],
        files = [''/app/data/index.faiss'' \<mapsto> IndexFile (flat_index [[1, 0]]),
                 ''/app/data/chunks.json'' \<mapsto> ChunksFile [''abc'']],
        calls = [EmbeddingsCreate EMBED_MODEL [''abc'']] \<rparr>)"
  by (simp add: ingest_def example_env_fields example_paths example_extract_def example_chunks
      example_build Let_def absent_state_def spec_load_index_def flat_index_def)

text \<open>The first ingestion of the example service.\<close>

theorem index_matches_chunk_store_witness:
  "(\<forall>texts. \<exists>vs. example_embedder EMBED_MODEL texts = Inr vs \<and> length vs = length texts)
   \<and> fst (ingest example_env absent_state) = Inr (IngestOut ''ok'' 1)
   \<and> (\<exists>idx cs. index (snd (ingest example_env absent_state)) = Some idx
        \<and> chunks (snd (ingest example_env absent_state)) = Some cs
        \<and> ntotal idx = length cs \<and> length cs = 1)"
proof -
  have a: "\<forall>texts vs. example_embedder EMBED_MODEL texts = Inr vs \<longrightarrow> length vs = length texts"
    by (auto simp: example_embedder_def)
  have b: "fst (ingest (spec_env ''/app'' example_extract 5 2 example_embedder example_completer)
      absent_state) = Inr (IngestOut ''ok'' 1)"
    using ingest_example by (simp add: example_env_def)
  note t = index_matches_chunk_store[of example_embedder, OF a]
  from t b
  have "\<exists>idx cs. index (snd (ingest example_env absent_state)) = Some idx
        \<and> chunks (snd (ingest example_env absent_state)) = Some cs
        \<and> ntotal idx = length cs \<and> n_chunks (IngestOut ''ok'' 1) = length cs"
    unfolding example_env_def by blast
  then obtain idx cs where
    i: "index (snd (ingest example_env absent_state)) = Some idx" and
    c: "chunks (snd (ingest example_env absent_state)) = Some cs" and
    n: "ntotal idx = length cs" and o: "n_chunks (IngestOut ''ok'' 1) = length cs"
    by blast
  from o have l: "length cs = 1" by simp
  from i c n l have kb: "\<exists>idx cs. index (snd (ingest example_env absent_state)) = Some idx
        \<and> chunks (snd (ingest example_env absent_state)) = Some cs
        \<and> ntotal idx = length cs \<and> length cs = 1"
    by blast
  have a': "\<forall>texts. \<exists>vs. example_embedder EMBED_MODEL texts = Inr vs \<and> length vs = length texts"
    by (simp add: example_embedder_def)
  have b': "fst (ingest example_env absent_state) = Inr (IngestOut ''ok'' 1)"
    using ingest_example by simp
  from a' b' kb show ?thesis by (intro conjI)
qed


section \<open>Errors of collaborators\<close>



















section \<open>Loading at the first question\<close>

lemma example_retrieve:
  "retrieve example_env ''claims process'' three_vectors three_chunks 4 tr =
     (Inr [''one'', ''three'', ''two''], tr @ [EmbeddingsCreate EMBED_MODEL [''claims process'']])"
proof -
  have "fst (embed_query example_env ''claims process'' tr) = Inr [1, 0]"
    by (simp add: example_embed_query)
  then have "fst (retrieve example_env ''claims process'' three_vectors three_chunks 4 tr)
      = retrieve_loop three_chunks (snd (search three_vectors [1, 0] 4)) []"
    by (rule retrieve_embedded)
  also have "\<dots> = Inr [''one'', ''three'', ''two'']"
    by (simp add: search_three_vectors three_chunks_def py_getitem_def)
  finally have "fst (retrieve example_env ''claims process'' three_vectors three_chunks 4 tr)
      = Inr [''one'', ''three'', ''two'']" .
  with retrieve_calls[of example_env "''claims process''" three_vectors three_chunks 4 tr]
  show ?thesis by (simp add: prod_eq_iff)
qed

lemma example_answer:
  "fst (generate_answer example_env q hits tr) = Inr ''Please contact human support.''"
  by (simp add: generate_answer_def Let_def example_env_fields example_completer_def)

lemma chat_ready_example:
  "fst (chat example_env (ChatIn ''claims process'') ready_state)
     = Inr (ChatOut ''Please contact human support.'')"
proof -
  have i: "index ready_state = Some three_vectors" and c: "chunks ready_state = Some three_chunks"
    by (simp_all add: ready_state_def)
  obtain a tr where g: "generate_answer example_env ''claims process'' [''one'', ''three'', ''two'']
      (calls ready_state @ [EmbeddingsCreate EMBED_MODEL [''claims process'']]) = (a, tr)"
    by (cases "generate_answer example_env ''claims process'' [''one'', ''three'', ''two'']
      (calls ready_state @ [EmbeddingsCreate EMBED_MODEL [''claims process'']])")
  with example_answer[of "''claims process''" "[''one'', ''three'', ''two'']"
      "calls ready_state @ [EmbeddingsCreate EMBED_MODEL [''claims process'']]"]
  have a: "a = Inr ''Please contact human support.''" by simp
  show ?thesis
    by (simp add: chat_def i c chat_answer_def retrieve_default_k_def example_retrieve g a)
qed

text \<open>After a restart with both files on disk the first question is answered.\<close>

theorem chat_loads_persisted_witness:
  "(index persisted_state = None \<or> chunks persisted_state = None)
   \<and> path_exists persisted_state (INDEX_PATH example_env)
   \<and> path_exists persisted_state (META_PATH example_env)
   \<and> load_index example_env (INDEX_PATH example_env) (META_PATH example_env)
        (files persisted_state) = Inr (three_vectors, three_chunks)
   \<and> chat example_env (ChatIn ''claims process'') persisted_state
       = chat example_env (ChatIn ''claims process'') ready_state
   \<and> fst (chat example_env (ChatIn ''claims process'') persisted_state)
       = Inr (ChatOut ''Please contact human support.'')"
proof -
  have u: "(index persisted_state = None \<or> chunks persisted_state = None)
      \<and> path_exists persisted_state (INDEX_PATH example_env)
      \<and> path_exists persisted_state (META_PATH example_env)"
    by (simp add: persisted_state_def path_exists_def example_paths)
  have l: "load_index example_env (INDEX_PATH example_env) (META_PATH example_env)
        (files persisted_state) = Inr (three_vectors, three_chunks)"
    by (simp add: example_env_fields example_paths persisted_state_def spec_load_index_def
        three_vectors_def three_chunks_def flat_index_def)
  note t = chat_loads_persisted[where e = example_env and s = persisted_state
      and p = "ChatIn ''claims process''", THEN conjunct1, THEN mp, OF u]
  then have "chat example_env (ChatIn ''claims process'') persisted_state
       = chat example_env (ChatIn ''claims process'') ready_state"
    by (simp add: l ready_state_def)
  with u l chat_ready_example show ?thesis by simp
qed


section \<open>Chunking\<close>


lemmas chunk_spans_simps = chunk_spans.simps
declare chunk_spans.simps [simp del]

lemma chunk_spans_last:
  "start < n \<Longrightarrow> n \<le> start + max_size \<or> max_size \<le> overlap \<Longrightarrow>
     chunk_spans max_size overlap n start = [(start, n)]"
  by (subst chunk_spans.simps) simp

lemma chunk_spans_step:
  "start + max_size < n \<Longrightarrow> overlap < max_size \<Longrightarrow>
     chunk_spans max_size overlap n start =
       (start, start + max_size) # chunk_spans max_size overlap n (start + max_size - overlap)"
  by (subst chunk_spans.simps) simp

lemma chunk_spans_empty: "n \<le> start \<Longrightarrow> chunk_spans max_size overlap n start = []"
  by (subst chunk_spans.simps) simp

lemma chunk_spans_hd:
  "start < n \<Longrightarrow> \<exists>e rest. chunk_spans max_size overlap n start = (start, e) # rest"
  by (subst chunk_spans.simps) simp

lemma chunk_spans_hd_end:
  "start < n \<Longrightarrow> overlap < max_size \<Longrightarrow>
     \<exists>rest. chunk_spans max_size overlap n start = (start, min n (start + max_size)) # rest"
  by (subst chunk_spans.simps) (simp add: min_def)

lemma chunk_spans_bounds:
  "overlap < max_size \<Longrightarrow> (s, e) \<in> set (chunk_spans max_size overlap n start) \<Longrightarrow>
     start \<le> s \<and> s < e \<and> e \<le> n \<and> e - s \<le> max_size"
proof (induction max_size overlap n start rule: chunk_spans.induct)
  case (1 max_size overlap n start)
  show ?case
  proof (cases "n \<le> start")
    case True
    with "1.prems" show ?thesis by (simp add: chunk_spans_empty)
  next
    case False
    show ?thesis
    proof (cases "n \<le> start + max_size")
      case True
      with False "1.prems" show ?thesis by (simp add: chunk_spans_last)
    next
      case far: False
      with "1.prems" have step: "chunk_spans max_size overlap n start =
         (start, start + max_size) # chunk_spans max_size overlap n (start + max_size - overlap)"
        by (simp add: chunk_spans_step)
      from "1.prems"(2) step consider "(s, e) = (start, start + max_size)"
        | "(s, e) \<in> set (chunk_spans max_size overlap n (start + max_size - overlap))"
        by auto
      then show ?thesis
      proof cases
        case 1
        with far "1.prems" show ?thesis by simp
      next
        case 2
        from "1.IH"[OF False _ "1.prems"(1) 2] far "1.prems"(1)
        show ?thesis by linarith
      qed
    qed
  qed
qed

lemma chunk_spans_last_end:
  "start < n \<Longrightarrow> snd (last (chunk_spans max_size overlap n start)) = n"
proof (induction max_size overlap n start rule: chunk_spans.induct)
  case (1 max_size overlap n start)
  show ?case
  proof (cases "n \<le> start + max_size \<or> max_size \<le> overlap")
    case True
    with "1.prems" show ?thesis by (simp add: chunk_spans_last)
  next
    case False
    then have step: "chunk_spans max_size overlap n start =
         (start, start + max_size) # chunk_spans max_size overlap n (start + max_size - overlap)"
      by (simp add: chunk_spans_step)
    from False have lt: "start + max_size - overlap < n" by linarith
    then obtain e rest where "chunk_spans max_size overlap n (start + max_size - overlap) = (start + max_size - overlap, e) # rest"
      using chunk_spans_hd by blast
    with step "1.IH"[OF _ False lt] "1.prems" show ?thesis by simp
  qed
qed

lemma chunk_spans_next:
  "overlap < max_size \<Longrightarrow> Suc i < length (chunk_spans max_size overlap n start) \<Longrightarrow>
     fst (chunk_spans max_size overlap n start ! Suc i) + overlap
       = snd (chunk_spans max_size overlap n start ! i)"
proof (induction max_size overlap n start arbitrary: i rule: chunk_spans.induct)
  case (1 max_size overlap n start)
  show ?case
  proof (cases "n \<le> start")
    case True
    with "1.prems" show ?thesis by (simp add: chunk_spans_empty)
  next
    case False
    show ?thesis
    proof (cases "n \<le> start + max_size")
      case True
      with False "1.prems" show ?thesis by (simp add: chunk_spans_last)
    next
      case far: False
      let ?next = "start + max_size - overlap"
      from far "1.prems" have step: "chunk_spans max_size overlap n start =
         (start, start + max_size) # chunk_spans max_size overlap n ?next"
        by (simp add: chunk_spans_step)
      from far "1.prems"(1) have "?next < n" by linarith
      then obtain e rest where hd: "chunk_spans max_size overlap n ?next = (?next, e) # rest"
        using chunk_spans_hd by blast
      show ?thesis
      proof (cases i)
        case 0
        with step hd "1.prems"(1) show ?thesis by simp
      next
        case (Suc j)
        with "1.prems"(2) step have "Suc j < length (chunk_spans max_size overlap n ?next)"
          by simp
        from "1.IH"[OF False _ "1.prems"(1) this] far "1.prems"(1) step Suc
        show ?thesis by simp
      qed
    qed
  qed
qed

lemma tails_spans:
  "overlap < max_size \<Longrightarrow> start + overlap \<le> length t \<Longrightarrow> start < length t \<Longrightarrow>
     concat (map (drop overlap) (map (slice t) (chunk_spans max_size overlap (length t) start)))
       = drop (start + overlap) t"
proof (induction max_size overlap "length t" start rule: chunk_spans.induct)
  case (1 max_size overlap start)
  show ?case
  proof (cases "length t \<le> start + max_size")
    case True
    with "1.prems" show ?thesis
      by (simp add: chunk_spans_last slice_def add.commute)
  next
    case far: False
    let ?next = "start + max_size - overlap"
    from far "1.prems" have step: "chunk_spans max_size overlap (length t) start =
         (start, start + max_size) # chunk_spans max_size overlap (length t) ?next"
      by (simp add: chunk_spans_step)
    have ih: "concat (map (drop overlap) (map (slice t) (chunk_spans max_size overlap (length t) ?next)))
       = drop (?next + overlap) t"
      using "1.hyps" far "1.prems" by simp
    have "drop overlap (slice t (start, start + max_size)) @ drop (start + max_size) t
            = drop (start + overlap) t"
    proof -
      define u where "u = drop start t"
      have len: "overlap \<le> length (take max_size u)"
        using far "1.prems" by (simp add: u_def)
      have "drop (start + overlap) t = drop overlap u"
        by (simp add: u_def add.commute)
      also have "\<dots> = drop overlap (take max_size u @ drop max_size u)"
        by (simp only: append_take_drop_id)
      also have "\<dots> = drop overlap (take max_size u) @ drop max_size u"
        using len by (simp only: drop_append) simp
      also have "drop max_size u = drop (start + max_size) t"
        by (simp add: u_def add.commute)
      finally show ?thesis by (simp add: slice_def u_def)
    qed
    with step ih "1.prems" show ?thesis by simp
  qed
qed

lemma reassemble_chunks:
  assumes "overlap < max_size"
  shows "reassemble overlap (spec_chunk_text max_size overlap t) = t"
proof (cases "length t \<le> max_size")
  case True
  show ?thesis
  proof (cases "t = []")
    case True
    then show ?thesis by (simp add: spec_chunk_text_def chunk_spans_empty)
  next
    case False
    with True show ?thesis by (simp add: spec_chunk_text_def chunk_spans_last slice_def)
  qed
next
  case False
  with assms have step: "chunk_spans max_size overlap (length t) 0 =
         (0, max_size) # chunk_spans max_size overlap (length t) (max_size - overlap)"
    using chunk_spans_step[of 0 max_size "length t" overlap] by simp
  have "concat (map (drop overlap) (map (slice t) (chunk_spans max_size overlap (length t) (max_size - overlap))))
       = drop (max_size - overlap + overlap) t"
    using assms False by (intro tails_spans) simp_all
  with step assms show ?thesis
    by (simp add: spec_chunk_text_def slice_def)
qed

lemma chunk_spans_full:
  "overlap < max_size \<Longrightarrow> Suc i < length (chunk_spans max_size overlap n start) \<Longrightarrow>
     snd (chunk_spans max_size overlap n start ! i)
       = fst (chunk_spans max_size overlap n start ! i) + max_size \<and>
     snd (chunk_spans max_size overlap n start ! i)
       < snd (chunk_spans max_size overlap n start ! Suc i)"
proof (induction max_size overlap n start arbitrary: i rule: chunk_spans.induct)
  case (1 max_size overlap n start)
  show ?case
  proof (cases "n \<le> start")
    case True
    with "1.prems" show ?thesis by (simp add: chunk_spans_empty)
  next
    case False
    show ?thesis
    proof (cases "n \<le> start + max_size")
      case True
      with False "1.prems" show ?thesis by (simp add: chunk_spans_last)
    next
      case far: False
      let ?next = "start + max_size - overlap"
      from far "1.prems" have step: "chunk_spans max_size overlap n start =
         (start, start + max_size) # chunk_spans max_size overlap n ?next"
        by (simp add: chunk_spans_step)
      from far "1.prems"(1) have "?next < n" by linarith
      then obtain rest where hd: "chunk_spans max_size overlap n ?next
          = (?next, min n (?next + max_size)) # rest"
        using chunk_spans_hd_end "1.prems"(1) by blast
      show ?thesis
      proof (cases i)
        case 0
        have n0: "chunk_spans max_size overlap n start ! 0 = (start, start + max_size)"
          by (subst step) simp
        have n1: "chunk_spans max_size overlap n start ! Suc 0 = (?next, min n (?next + max_size))"
          by (subst step) (simp add: hd)
        have "start + max_size < min n (?next + max_size)"
          using far "1.prems"(1) unfolding min_def by (simp, arith)
        then show ?thesis
          unfolding 0 n0 n1 fst_conv snd_conv by (rule conjI[OF refl])
      next
        case (Suc j)
        with "1.prems"(2) step have "Suc j < length (chunk_spans max_size overlap n ?next)"
          by simp
        from "1.IH"[OF False _ "1.prems"(1) this] far "1.prems"(1) step Suc
        show ?thesis by simp
      qed
    qed
  qed
qed

lemma spec_chunk_text_empty: "spec_chunk_text max_size overlap [] = []"
  by (simp add: spec_chunk_text_def chunk_spans_empty)

lemma chunk_overlap_shared:
  assumes ov: "overlap < max_size"
    and i: "Suc i < length (spec_chunk_text max_size overlap t)"
  shows "take overlap (spec_chunk_text max_size overlap t ! Suc i)
           = drop (length (spec_chunk_text max_size overlap t ! i) - overlap)
               (spec_chunk_text max_size overlap t ! i)
         \<and> length (take overlap (spec_chunk_text max_size overlap t ! Suc i)) = overlap"
proof -
  let ?sp = "chunk_spans max_size overlap (length t) 0"
  from i have i': "Suc i < length ?sp" by (simp add: spec_chunk_text_def)
  obtain s e where se: "?sp ! i = (s, e)" by (cases "?sp ! i")
  obtain s' e' where se': "?sp ! Suc i = (s', e')" by (cases "?sp ! Suc i")
  from chunk_spans_full[OF ov i'] se se' have full: "e = s + max_size" and lt: "e < e'"
    by simp_all
  from chunk_spans_next[OF ov i'] se se' have nxt: "s' + overlap = e" by simp
  have "(s', e') \<in> set ?sp" using i' se' by (metis nth_mem)
  from chunk_spans_bounds[OF ov this] have b': "e' \<le> length t" by simp
  have ci: "spec_chunk_text max_size overlap t ! i = take max_size (drop s t)"
    using i' se full by (simp add: spec_chunk_text_def slice_def)
  have ci': "spec_chunk_text max_size overlap t ! Suc i = take (e' - s') (drop s' t)"
    using i' se' by (simp add: spec_chunk_text_def slice_def)
  have s': "s' = s + (max_size - overlap)" using nxt full ov by linarith
  have len_i: "length (take max_size (drop s t)) = max_size"
    using full lt b' by simp
  have "take overlap (take (e' - s') (drop s' t)) = take overlap (drop s' t)"
    using nxt lt by (simp add: min_def)
  also have "\<dots> = drop (max_size - overlap) (take max_size (drop s t))"
    using ov by (simp add: drop_take s' add.commute)
  finally have shared: "take overlap (take (e' - s') (drop s' t))
      = drop (max_size - overlap) (take max_size (drop s t))" .
  have "length (take overlap (take (e' - s') (drop s' t))) = overlap"
    using nxt lt b' by simp
  with shared ci ci' len_i show ?thesis by simp
qed

text \<open>
  C7. For an overlap smaller than the maximum size and every text: the chunks with the
  overlaps removed concatenate to the text; no chunk is empty or longer than the
  maximum size; a chunk after the first starts \<open>overlap\<close> before the end of the chunk
  before it, and its first \<open>overlap\<close> characters are the last \<open>overlap\<close> characters of
  that chunk; the chunks are the slices of the spans, which start at 0 and end at the
  end of the text; the empty text has no chunk.
\<close>

theorem chunking_covers_text:
  assumes "overlap < max_size"
  shows "reassemble overlap (spec_chunk_text max_size overlap t) = t
    \<and> (\<forall>c \<in> set (spec_chunk_text max_size overlap t). c \<noteq> [] \<and> length c \<le> max_size)
    \<and> (\<forall>i. Suc i < length (spec_chunk_text max_size overlap t) \<longrightarrow>
          fst (chunk_spans max_size overlap (length t) 0 ! Suc i)
            = snd (chunk_spans max_size overlap (length t) 0 ! i) - overlap
        \<and> overlap \<le> snd (chunk_spans max_size overlap (length t) 0 ! i)
        \<and> take overlap (spec_chunk_text max_size overlap t ! Suc i)
            = drop (length (spec_chunk_text max_size overlap t ! i) - overlap)
                (spec_chunk_text max_size overlap t ! i)
        \<and> length (take overlap (spec_chunk_text max_size overlap t ! Suc i)) = overlap)
    \<and> spec_chunk_text max_size overlap t
          = map (slice t) (chunk_spans max_size overlap (length t) 0)
    \<and> (t \<noteq> [] \<longrightarrow>
          fst (hd (chunk_spans max_size overlap (length t) 0)) = 0
        \<and> snd (last (chunk_spans max_size overlap (length t) 0)) = length t)
    \<and> spec_chunk_text max_size overlap [] = []"
proof -
  let ?sp = "chunk_spans max_size overlap (length t) 0"
  let ?cs = "spec_chunk_text max_size overlap t"
  have a: "reassemble overlap ?cs = t"
    using assms by (rule reassemble_chunks)
  have b: "\<forall>c \<in> set ?cs. c \<noteq> [] \<and> length c \<le> max_size"
  proof
    fix c assume "c \<in> set ?cs"
    then obtain s e where se: "(s, e) \<in> set ?sp" and c: "c = slice t (s, e)"
      by (auto simp: spec_chunk_text_def)
    from chunk_spans_bounds[OF assms se] c show "c \<noteq> [] \<and> length c \<le> max_size"
      by (auto simp: slice_def)
  qed
  have c: "\<forall>i. Suc i < length ?cs \<longrightarrow>
          fst (?sp ! Suc i) = snd (?sp ! i) - overlap
        \<and> overlap \<le> snd (?sp ! i)
        \<and> take overlap (?cs ! Suc i) = drop (length (?cs ! i) - overlap) (?cs ! i)
        \<and> length (take overlap (?cs ! Suc i)) = overlap"
  proof (intro allI impI)
    fix i assume i: "Suc i < length ?cs"
    then have i': "Suc i < length ?sp" by (simp add: spec_chunk_text_def)
    from chunk_spans_next[OF assms i']
    have "fst (?sp ! Suc i) = snd (?sp ! i) - overlap \<and> overlap \<le> snd (?sp ! i)"
      by linarith
    with chunk_overlap_shared[OF assms i]
    show "fst (?sp ! Suc i) = snd (?sp ! i) - overlap
        \<and> overlap \<le> snd (?sp ! i)
        \<and> take overlap (?cs ! Suc i) = drop (length (?cs ! i) - overlap) (?cs ! i)
        \<and> length (take overlap (?cs ! Suc i)) = overlap"
      by blast
  qed
  have d: "?cs = map (slice t) ?sp"
    by (simp add: spec_chunk_text_def)
  have e: "t \<noteq> [] \<longrightarrow> fst (hd ?sp) = 0 \<and> snd (last ?sp) = length t"
  proof
    assume "t \<noteq> []"
    then have pos: "0 < length t" by simp
    from chunk_spans_hd[OF pos] obtain e rest where "?sp = (0, e) # rest" by blast
    then have "fst (hd ?sp) = 0" by simp
    with chunk_spans_last_end[OF pos] show "fst (hd ?sp) = 0 \<and> snd (last ?sp) = length t"
      by simp
  qed
  from a b c d e spec_chunk_text_empty show ?thesis by blast
qed

text \<open>Twelve characters in chunks of at most five with an overlap of two.\<close>

theorem chunking_covers_text_witness:
  "(2::nat) < 5
   \<and> spec_chunk_text 5 2 ''abcdefghijkl'' = [''abcde'', ''defgh'', ''ghijk'', ''jkl'']
   \<and> reassemble 2 [''abcde'', ''defgh'', ''ghijk'', ''jkl''] = ''abcdefghijkl''"
proof -
  have sp: "chunk_spans 5 2 12 0 = [(0, 5), (3, 8), (6, 11), (9, 12)]"
    by (simp add: chunk_spans_simps)
  have len: "length ''abcdefghijkl'' = 12"
    by simp
  have cs: "spec_chunk_text 5 2 ''abcdefghijkl'' = [''abcde'', ''defgh'', ''ghijk'', ''jkl'']"
    by (simp only: spec_chunk_text_def len sp) (simp add: slice_def)
  have "(2::nat) < 5" by simp
  from chunking_covers_text[OF this, of "''abcdefghijkl''"]
  have "reassemble 2 (spec_chunk_text 5 2 ''abcdefghijkl'') = ''abcdefghijkl''"
    by (rule conjunct1)
  with cs show ?thesis
    by simp
qed

end
